theory Spec2Isabelle
  imports Main "HOL-Library.Sublist" "HOL-Library.AList"
begin

section \<open>Python strings\<close>

text \<open>
  A Python \<open>str\<close> is modelled as a \<^typ>\<open>string\<close>; a \<^typ>\<open>char\<close> stands for a code point
  below 256. The three \<open>str\<close> methods that \<open>txt_to_json.py\<close> calls are written out:
  \<open>strip()\<close>, \<open>split(sep)\<close> with a one-character separator, and \<open>replace(old, new)\<close>.
\<close>

definition tab :: char where
  "tab = CHR 0x09"

definition newline :: char where
  "newline = CHR 0x0A"

text \<open>
  \<open>str.isspace\<close> on one code point below 256: the controls 9 to 13 and 28 to 31, the
  space, NEL (133) and the no-break space (160).
\<close>

definition isspace :: "char \<Rightarrow> bool" where
  "isspace c =
     (let n = (of_char c :: nat)
      in (9 \<le> n \<and> n \<le> 13) \<or> (28 \<le> n \<and> n \<le> 32) \<or> n = 133 \<or> n = 160)"

text \<open>\<open>s.strip()\<close>: whitespace is removed at both ends of the string.\<close>

definition str_strip :: "string \<Rightarrow> string" where
  "str_strip s = rev (dropWhile isspace (rev (dropWhile isspace s)))"

text \<open>\<open>s.rstrip()\<close>, which removes whitespace at the end only (not called by the source).\<close>

definition str_rstrip :: "string \<Rightarrow> string" where
  "str_rstrip s = rev (dropWhile isspace (rev s))"

text \<open>
  \<open>s.split(sep)\<close> for a separator of one character: the pieces between the separators,
  empty pieces included, so the result is never the empty list.
\<close>

fun str_split :: "char \<Rightarrow> string \<Rightarrow> string list" where
  "str_split sep [] = [[]]"
| "str_split sep (c # cs) =
     (if c = sep then [] # str_split sep cs
      else (case str_split sep cs of
              [] \<Rightarrow> [[c]]
            | w # ws \<Rightarrow> (c # w) # ws))"

text \<open>
  \<open>s.replace(old, new)\<close>: every occurrence of \<open>old\<close> is replaced, scanning from the left
  without overlap. An empty \<open>old\<close> matches before every character and at the end.
\<close>

fun replace_scan :: "string \<Rightarrow> string \<Rightarrow> string \<Rightarrow> string" where
  "replace_scan old new [] = []"
| "replace_scan old new (c # cs) =
     (if old \<noteq> [] \<and> prefix old (c # cs)
      then new @ replace_scan old new (drop (length old) (c # cs))
      else c # replace_scan old new cs)"

definition str_replace :: "string \<Rightarrow> string \<Rightarrow> string \<Rightarrow> string" where
  "str_replace old new s =
     (if old = [] then new @ concat (map (\<lambda>c. c # new) s)
      else replace_scan old new s)"

section \<open>The record accumulator\<close>

text \<open>
  \<open>construct_meme_data_tracker_dict\<close> returns a dictionary with the four keys
  \<open>'P'\<close>, \<open>'T'\<close>, \<open>'Q'\<close>, \<open>'L'\<close> and no code adds or removes a key: a record with one field
  for each key.
\<close>

record tracker =
  key_P :: string
  key_T :: string
  key_Q :: "string list"
  key_L :: "string list"

definition construct_meme_data_tracker_dict :: tracker where
  "construct_meme_data_tracker_dict =
     \<lparr>key_P = [], key_T = [], key_Q = [], key_L = []\<rparr>"

text \<open>
  \<open>process_txt_file_line\<close> mutates the dictionary and prints; the model takes the
  dictionary and the lines printed so far and returns them with the result. The
  unpacking \<open>[content_identifier, line_content] = file_line.split('\t')\<close> raises
  \<open>ValueError\<close> unless the list has two elements, and the handler returns \<open>False\<close>.
\<close>

definition process_txt_file_line ::
  "string \<Rightarrow> tracker \<Rightarrow> string list \<Rightarrow> bool \<times> tracker \<times> string list" where
  "process_txt_file_line file_line individual_meme_data_dict out =
     (let file_line = str_strip file_line
      in case str_split tab file_line of
           [content_identifier, line_content] \<Rightarrow>
             if content_identifier = ''P''
             then (True, individual_meme_data_dict\<lparr>key_P := line_content\<rparr>, out)
             else if content_identifier = ''T''
             then (True, individual_meme_data_dict\<lparr>key_T := line_content\<rparr>, out)
             else if content_identifier = ''Q''
             then (True,
                   individual_meme_data_dict
                     \<lparr>key_Q := key_Q individual_meme_data_dict @ [line_content]\<rparr>,
                   out)
             else if content_identifier = ''L''
             then (True,
                   individual_meme_data_dict
                     \<lparr>key_L := key_L individual_meme_data_dict @ [line_content]\<rparr>,
                   out)
             else (True, individual_meme_data_dict,
                   out @ [''Invalid line encountered in the file: '' @ file_line])
         | _ \<Rightarrow> (False, individual_meme_data_dict, out))"

text \<open>The list that the unpacking of \<open>process_txt_file_line\<close> sees.\<close>

definition line_parts :: "string \<Rightarrow> string list" where
  "line_parts file_line = str_split tab (str_strip file_line)"

section \<open>The output document\<close>

text \<open>
  One entry of the output document. The document is a Python dictionary from url to
  entry; it keeps the order of first insertion, so it is an association list, and
  \<open>d[k] = v\<close> is \<^const>\<open>AList.update\<close>: the value is replaced in place when the key is
  there, and the pair is added at the end when it is not.
\<close>

record meme =
  url :: string
  id_num :: int
  timestamp :: string
  phrases :: "string list"
  links :: "string list"

type_synonym json_data = "(string \<times> meme) list"

definition add_data_to_json_file_data_dict ::
  "tracker \<Rightarrow> json_data \<Rightarrow> int \<Rightarrow> json_data" where
  "add_data_to_json_file_data_dict individual_meme_data_dict output_json_file_data
       meme_record_id =
     AList.update (key_P individual_meme_data_dict)
       \<lparr>url = key_P individual_meme_data_dict,
        id_num = meme_record_id,
        timestamp = key_T individual_meme_data_dict,
        phrases = key_Q individual_meme_data_dict,
        links = key_L individual_meme_data_dict\<rparr>
       output_json_file_data"

section \<open>The file converter\<close>

text \<open>
  What iterating over the opened text file gives: a decoded line, or the
  \<open>UnicodeDecodeError\<close> that the decoder raises in place of one.
\<close>

datatype line_read = Line string | UnicodeDecodeError

text \<open>The local variables of \<open>convert_txt_file_to_json\<close> that its loop changes.\<close>

record loop_state =
  json_file_data :: json_data
  meme_data_dict :: tracker
  record_id :: int
  printed :: "string list"

text \<open>The body of the \<open>for\<close> loop, for one decoded line.\<close>

definition loop_body :: "string \<Rightarrow> loop_state \<Rightarrow> loop_state" where
  "loop_body file_line s =
     (case process_txt_file_line file_line (meme_data_dict s) (printed s) of
        (continues, d, out) \<Rightarrow>
          if \<not> continues
          then \<lparr>json_file_data =
                  add_data_to_json_file_data_dict d (json_file_data s) (record_id s),
                meme_data_dict = construct_meme_data_tracker_dict,
                record_id = record_id s + 1,
                printed = out\<rparr>
          else \<lparr>json_file_data = json_file_data s,
                meme_data_dict = d,
                record_id = record_id s,
                printed = out\<rparr>)"

text \<open>
  The \<open>for\<close> loop inside its \<open>try\<close>: the handler of \<open>UnicodeDecodeError\<close> is outside the
  loop, so the first failure prints and ends the iteration.
\<close>

fun for_file_line :: "line_read list \<Rightarrow> loop_state \<Rightarrow> loop_state" where
  "for_file_line [] s = s"
| "for_file_line (Line file_line # txt_file) s =
     for_file_line txt_file (loop_body file_line s)"
| "for_file_line (UnicodeDecodeError # txt_file) s =
     s\<lparr>printed := printed s @ [''Unicode Decode Error. Character Mapped to undefined'']\<rparr>"

text \<open>
  The file system and the console. A regular file is what reading it line by line
  gives; a path is its string (two strings are two files). Opening an existing file
  for reading and opening any file for writing succeed: the exceptions that the
  operating system can raise there are outside the model.
\<close>

record world =
  files :: "string \<rightharpoonup> line_read list"
  dirs :: "string set"
  stdout :: "string list"

definition exist_directory :: "world \<Rightarrow> string \<Rightarrow> bool" where
  "exist_directory w directory_path = (directory_path \<in> dirs w)"

definition exist_file :: "world \<Rightarrow> string \<Rightarrow> bool" where
  "exist_file w file_path = (files w file_path \<noteq> None)"

text \<open>\<open>os.path.join\<close> of two components, as \<open>posixpath\<close> computes it.\<close>

definition os_path_join :: "string \<Rightarrow> string \<Rightarrow> string" where
  "os_path_join a b =
     (if prefix ''/'' b then b
      else if a = [] \<or> suffix ''/'' a then a @ b
      else a @ ''/'' @ b)"

text \<open>
  The collaborators outside the repository: \<open>json.dump\<close> (the text it writes, as a later
  reading of the file would see it), \<open>os.makedirs\<close> (\<open>None\<close> when it raises
  \<open>FileNotFoundError\<close>, the one exception the caller handles; otherwise the world with
  the directory made) and \<open>glob.glob\<close> of \<open>*extension\<close> in a directory. The model is
  given them as parameters, and every theorem holds whatever they are.
\<close>

record os_env =
  json_dump :: "json_data \<Rightarrow> line_read list"
  makedirs :: "world \<Rightarrow> string \<Rightarrow> world option"
  glob :: "world \<Rightarrow> string \<Rightarrow> string \<Rightarrow> string list"

definition input_txt_file_path :: "string \<Rightarrow> string \<Rightarrow> string" where
  "input_txt_file_path input_file_directory_path input_txt_file_name =
     os_path_join input_file_directory_path input_txt_file_name"

definition output_json_file_name :: "string \<Rightarrow> string \<Rightarrow> string" where
  "output_json_file_name input_txt_file_name input_txt_file_extension =
     str_replace input_txt_file_extension ''.json'' input_txt_file_name"

definition output_json_file_path :: "string \<Rightarrow> string \<Rightarrow> string \<Rightarrow> string" where
  "output_json_file_path output_json_directory_path input_txt_file_name
       input_txt_file_extension =
     os_path_join output_json_directory_path
       (output_json_file_name input_txt_file_name input_txt_file_extension)"

definition read_lines :: "world \<Rightarrow> string \<Rightarrow> line_read list" where
  "read_lines w file_path = (case files w file_path of None \<Rightarrow> [] | Some txt_file \<Rightarrow> txt_file)"

text \<open>
  The state of the loop of \<open>convert_txt_file_to_json\<close> when it ends. The output file is
  opened for writing, and so emptied, before the input file is opened.
\<close>

definition open_output :: "world \<Rightarrow> string \<Rightarrow> world" where
  "open_output w file_path = w\<lparr>files := (files w)(file_path \<mapsto> [])\<rparr>"

definition initial_loop_state :: "int \<Rightarrow> string list \<Rightarrow> loop_state" where
  "initial_loop_state meme_record_id out =
     \<lparr>json_file_data = [],
      meme_data_dict = construct_meme_data_tracker_dict,
      record_id = meme_record_id,
      printed = out\<rparr>"

definition final_loop_state ::
  "world \<Rightarrow> string \<Rightarrow> string \<Rightarrow> string \<Rightarrow> string \<Rightarrow> int \<Rightarrow> loop_state" where
  "final_loop_state w input_file_directory_path input_txt_file_name
       input_txt_file_extension output_json_directory_path meme_record_id =
     (let w1 = open_output w
                 (output_json_file_path output_json_directory_path input_txt_file_name
                    input_txt_file_extension)
      in for_file_line
           (read_lines w1 (input_txt_file_path input_file_directory_path input_txt_file_name))
           (initial_loop_state meme_record_id (stdout w1)))"

definition convert_txt_file_to_json ::
  "os_env \<Rightarrow> world \<Rightarrow> string \<Rightarrow> string \<Rightarrow> string \<Rightarrow> string \<Rightarrow> int \<Rightarrow> world \<times> int" where
  "convert_txt_file_to_json os w input_file_directory_path input_txt_file_name
       input_txt_file_extension output_json_directory_path meme_record_id =
     (if \<not> exist_file w (input_txt_file_path input_file_directory_path input_txt_file_name)
      then (w\<lparr>stdout := stdout w @
                 [''The path to the given input txt file is invalid. File Path: '' @
                  input_txt_file_path input_file_directory_path input_txt_file_name]\<rparr>,
            meme_record_id)
      else
        (let s = final_loop_state w input_file_directory_path input_txt_file_name
                   input_txt_file_extension output_json_directory_path meme_record_id
         in (w\<lparr>files := (files w)
                  (output_json_file_path output_json_directory_path input_txt_file_name
                     input_txt_file_extension \<mapsto> json_dump os (json_file_data s)),
               stdout := printed s\<rparr>,
             record_id s)))"

section \<open>The directory batch driver\<close>

definition get_file_names :: "os_env \<Rightarrow> world \<Rightarrow> string \<Rightarrow> string \<Rightarrow> world \<times> string list" where
  "get_file_names os w directory_path file_extension =
     (if \<not> exist_directory w directory_path
      then (w\<lparr>stdout := stdout w @
                 [''The given directory path is invalid. Given: '' @ directory_path]\<rparr>, [])
      else (w, glob os w directory_path file_extension))"

text \<open>The \<open>for\<close> loop of \<open>convert_txt_files_from_directory\<close>, from a value of \<open>record_id\<close>.\<close>

fun for_input_file_name ::
  "os_env \<Rightarrow> string \<Rightarrow> string \<Rightarrow> string \<Rightarrow> string list \<Rightarrow> world \<Rightarrow> int \<Rightarrow> world \<times> int" where
  "for_input_file_name os input_directory_path file_extension output_json_directory_path
       [] w n = (w, n)"
| "for_input_file_name os input_directory_path file_extension output_json_directory_path
       (input_file_name # input_file_names) w n =
     (case convert_txt_file_to_json os w input_directory_path input_file_name file_extension
             output_json_directory_path n of
        (w', n') \<Rightarrow>
          for_input_file_name os input_directory_path file_extension
            output_json_directory_path input_file_names w' n')"

text \<open>
  \<open>convert_txt_files_from_directory\<close> up to its loop: \<open>Inl\<close> is the world at an early
  \<open>return\<close>, \<open>Inr\<close> the world and the value of \<open>input_file_names\<close> when the loop starts.
\<close>

definition input_file_names ::
  "os_env \<Rightarrow> world \<Rightarrow> string \<Rightarrow> string \<Rightarrow> string \<Rightarrow> string list \<Rightarrow>
   world + world \<times> string list" where
  "input_file_names os w input_directory_path file_extension output_json_directory_path
       file_names_list =
     (if \<not> exist_directory w input_directory_path
      then Inl (w\<lparr>stdout := stdout w @
                     [''The given directory path for the input '' @ file_extension @
                      '' files is invalid. Given '' @ input_directory_path]\<rparr>)
      else
        (case (if \<not> exist_directory w output_json_directory_path
               then makedirs os w output_json_directory_path else Some w) of
           None \<Rightarrow>
             Inl (w\<lparr>stdout := stdout w @
                       [''Invalid path to the JSON files Output directory. Given '' @
                        output_json_directory_path]\<rparr>)
         | Some w1 \<Rightarrow>
             Inr (if file_names_list \<noteq> [] then (w1, file_names_list)
                  else get_file_names os w1 input_directory_path file_extension)))"

definition convert_txt_files_from_directory ::
  "os_env \<Rightarrow> world \<Rightarrow> string \<Rightarrow> string \<Rightarrow> string \<Rightarrow> string list \<Rightarrow> world" where
  "convert_txt_files_from_directory os w input_directory_path file_extension
       output_json_directory_path file_names_list =
     (case input_file_names os w input_directory_path file_extension
             output_json_directory_path file_names_list of
        Inl w' \<Rightarrow> w'
      | Inr (w2, names) \<Rightarrow>
          fst (for_input_file_name os input_directory_path file_extension
                 output_json_directory_path names w2 0))"

section \<open>The calls that store a record\<close>

text \<open>
  The arguments (dictionary and id) of the calls of \<open>add_data_to_json_file_data_dict\<close>
  that the loop of \<open>convert_txt_file_to_json\<close> makes, in the order of the calls: one call
  where \<open>process_txt_file_line\<close> returns \<open>False\<close>, the state moving as the loop moves it.
\<close>

fun add_calls :: "line_read list \<Rightarrow> loop_state \<Rightarrow> (tracker \<times> int) list" where
  "add_calls [] s = []"
| "add_calls (Line file_line # txt_file) s =
     (case process_txt_file_line file_line (meme_data_dict s) (printed s) of
        (continues, d, out) \<Rightarrow>
          (if \<not> continues then [(d, record_id s)] else []) @
          add_calls txt_file (loop_body file_line s))"
| "add_calls (UnicodeDecodeError # txt_file) s = []"

text \<open>The same for one call of \<open>convert_txt_file_to_json\<close>, for the loop over the file
  names, and for \<open>convert_txt_files_from_directory\<close>.\<close>

definition file_add_calls ::
  "world \<Rightarrow> string \<Rightarrow> string \<Rightarrow> string \<Rightarrow> string \<Rightarrow> int \<Rightarrow> (tracker \<times> int) list" where
  "file_add_calls w input_file_directory_path input_txt_file_name input_txt_file_extension
       output_json_directory_path meme_record_id =
     (if \<not> exist_file w (input_txt_file_path input_file_directory_path input_txt_file_name)
      then []
      else
        (let w1 = open_output w
                    (output_json_file_path output_json_directory_path input_txt_file_name
                       input_txt_file_extension)
         in add_calls
              (read_lines w1
                 (input_txt_file_path input_file_directory_path input_txt_file_name))
              (initial_loop_state meme_record_id (stdout w1))))"

fun loop_add_calls ::
  "os_env \<Rightarrow> string \<Rightarrow> string \<Rightarrow> string \<Rightarrow> string list \<Rightarrow> world \<Rightarrow> int \<Rightarrow>
   (tracker \<times> int) list" where
  "loop_add_calls os input_directory_path file_extension output_json_directory_path
       [] w n = []"
| "loop_add_calls os input_directory_path file_extension output_json_directory_path
       (input_file_name # names) w n =
     file_add_calls w input_directory_path input_file_name file_extension
       output_json_directory_path n @
     (case convert_txt_file_to_json os w input_directory_path input_file_name file_extension
             output_json_directory_path n of
        (w', n') \<Rightarrow>
          loop_add_calls os input_directory_path file_extension
            output_json_directory_path names w' n')"

definition batch_add_calls ::
  "os_env \<Rightarrow> world \<Rightarrow> string \<Rightarrow> string \<Rightarrow> string \<Rightarrow> string list \<Rightarrow> (tracker \<times> int) list" where
  "batch_add_calls os w input_directory_path file_extension output_json_directory_path
       file_names_list =
     (case input_file_names os w input_directory_path file_extension
             output_json_directory_path file_names_list of
        Inl w' \<Rightarrow> []
      | Inr (w2, names) \<Rightarrow>
          loop_add_calls os input_directory_path file_extension
            output_json_directory_path names w2 0)"

section \<open>Lines and records of an input file\<close>

text \<open>
  The tag and the content of a line that splits into two parts, and the contents of the
  lines of a list that carry a given tag, in the order of the lines.
\<close>

definition line_tag :: "string \<Rightarrow> string" where
  "line_tag file_line = (case line_parts file_line of [t, c] \<Rightarrow> t | _ \<Rightarrow> [])"

definition line_content :: "string \<Rightarrow> string" where
  "line_content file_line = (case line_parts file_line of [t, c] \<Rightarrow> c | _ \<Rightarrow> [])"

definition contents_of :: "string \<Rightarrow> string list \<Rightarrow> string list" where
  "contents_of t file_lines =
     map line_content (filter (\<lambda>file_line. line_tag file_line = t) file_lines)"

definition field_line :: "string \<Rightarrow> bool" where
  "field_line file_line = (length (line_parts file_line) = 2)"

definition last_or_empty :: "string list \<Rightarrow> string" where
  "last_or_empty cs = (if cs = [] then [] else last cs)"

text \<open>
  A record of an input file as its lines: the lines that split into two parts, and the
  boundary line that ends it. A file of such records, one after the other, is the
  concatenation of their lines.
\<close>

type_synonym block = "string list \<times> string"

definition block_ok :: "block \<Rightarrow> bool" where
  "block_ok blk = (list_all field_line (fst blk) \<and> \<not> field_line (snd blk))"

definition block_lines :: "block \<Rightarrow> string list" where
  "block_lines blk = fst blk @ [snd blk]"

definition file_lines_of :: "block list \<Rightarrow> string list" where
  "file_lines_of blocks = concat (map block_lines blocks)"

text \<open>
  The accumulator that the loop holds after the field lines of a record, starting from
  a fresh one, and the url in it.
\<close>

definition block_dict :: "block \<Rightarrow> tracker" where
  "block_dict blk =
     meme_data_dict (for_file_line (map Line (fst blk)) (initial_loop_state 0 []))"

definition block_url :: "block \<Rightarrow> string" where
  "block_url blk = key_P (block_dict blk)"

section \<open>Facts about the string functions\<close>

text \<open>Evaluating the string functions on a given line.\<close>

lemmas line_eval = line_parts_def str_strip_def isspace_def tab_def newline_def
  line_tag_def line_content_def field_line_def

text \<open>
  \<open>replace\<close> on a name that ends with the extension and has no other occurrence of it.
\<close>

lemma replace_scan_single:
  assumes "old \<noteq> []"
    and "\<forall>i<length base. \<not> prefix old (drop i (base @ old))"
  shows "replace_scan old new (base @ old) = base @ new"
  using assms(2)
proof (induction base)
  case Nil
  from assms(1) obtain c cs where o: "old = c # cs" by (cases old) auto
  have "replace_scan old new old = new @ replace_scan old new (drop (length old) old)"
    unfolding o by simp
  then show ?case by simp
next
  case (Cons b base)
  from Cons.prems have "\<not> prefix old (drop 0 ((b # base) @ old))" by blast
  then have n: "\<not> prefix old (b # base @ old)" by simp
  have "\<forall>i<length base. \<not> prefix old (drop i (base @ old))"
  proof (intro allI impI)
    fix i assume "i < length base"
    then have "Suc i < length (b # base)" by simp
    with Cons.prems have "\<not> prefix old (drop (Suc i) ((b # base) @ old))" by blast
    then show "\<not> prefix old (drop i (base @ old))" by simp
  qed
  with Cons.IH have "replace_scan old new (base @ old) = base @ new" by simp
  with n show ?case by simp
qed

lemma output_json_file_name_single:
  assumes "ext \<noteq> []"
    and "\<forall>i<length base. \<not> prefix ext (drop i (base @ ext))"
  shows "output_json_file_name (base @ ext) ext = base @ ''.json''"
  using assms by (simp add: output_json_file_name_def str_replace_def replace_scan_single)

text \<open>Evaluating the path functions on given names.\<close>

lemma suffix_one: "suffix [c] a = (a \<noteq> [] \<and> last a = c)"
proof
  assume "suffix [c] a"
  then obtain zs where "a = zs @ [c]" by (auto simp: suffix_def)
  then show "a \<noteq> [] \<and> last a = c" by simp
next
  assume "a \<noteq> [] \<and> last a = c"
  then have "a = butlast a @ [c]" by auto
  then show "suffix [c] a" unfolding suffix_def by blast
qed

lemmas path_eval = input_txt_file_path_def output_json_file_path_def
  output_json_file_name_def os_path_join_def suffix_one str_replace_def


section \<open>Facts about one line and about the loop\<close>

lemma process_continues:
  "fst (process_txt_file_line l d out) = (length (line_parts l) = 2)"
  unfolding process_txt_file_line_def line_parts_def Let_def
  by (auto split: list.splits)

lemma process_boundary:
  "length (line_parts l) \<noteq> 2 \<Longrightarrow> process_txt_file_line l d out = (False, d, out)"
  unfolding process_txt_file_line_def line_parts_def Let_def
  by (auto split: list.splits)

lemma process_continuesD:
  "process_txt_file_line l d out = (b, d', out') \<Longrightarrow> b = (length (line_parts l) = 2)"
  using process_continues [of l d out] by simp

lemma loop_body_boundary:
  "length (line_parts l) \<noteq> 2 \<Longrightarrow>
   loop_body l s =
     \<lparr>json_file_data =
        add_data_to_json_file_data_dict (meme_data_dict s) (json_file_data s) (record_id s),
      meme_data_dict = construct_meme_data_tracker_dict,
      record_id = record_id s + 1,
      printed = printed s\<rparr>"
  by (simp add: loop_body_def process_boundary)

lemma loop_body_field:
  assumes "length (line_parts l) = 2"
  shows "json_file_data (loop_body l s) = json_file_data s"
    and "record_id (loop_body l s) = record_id s"
    and "meme_data_dict (loop_body l s) =
           fst (snd (process_txt_file_line l (meme_data_dict s) (printed s)))"
  using assms process_continues [of l "meme_data_dict s" "printed s"]
  by (auto simp: loop_body_def split: prod.splits)

lemma for_file_line_Lines:
  "for_file_line (map Line ls @ rs) s = for_file_line rs (for_file_line (map Line ls) s)"
  by (induction ls arbitrary: s) auto

lemma add_calls_Lines:
  "add_calls (map Line ls @ rs) s =
     add_calls (map Line ls) s @ add_calls rs (for_file_line (map Line ls) s)"
  by (induction ls arbitrary: s) (auto split: prod.splits)

lemma for_file_line_append:
  "for_file_line (rs1 @ rs2) s =
     (if UnicodeDecodeError \<in> set rs1 then for_file_line rs1 s
      else for_file_line rs2 (for_file_line rs1 s))"
  by (induction rs1 s rule: for_file_line.induct) auto

lemma add_calls_append:
  "add_calls (rs1 @ rs2) s =
     (if UnicodeDecodeError \<in> set rs1 then add_calls rs1 s
      else add_calls rs1 s @ add_calls rs2 (for_file_line rs1 s))"
  by (induction rs1 s rule: for_file_line.induct) (auto split: prod.splits)

lemma fields_only:
  assumes "\<forall>l\<in>set ls. length (line_parts l) = 2"
  shows "json_file_data (for_file_line (map Line ls) s) = json_file_data s"
    and "record_id (for_file_line (map Line ls) s) = record_id s"
    and "add_calls (map Line ls) s = []"
  using assms
  by (induction ls arbitrary: s)
     (auto simp: loop_body_field dest: process_continuesD split: prod.splits)

text \<open>The document and the counter of the loop, from the calls it makes.\<close>

lemma json_file_data_add_calls:
  "json_file_data (for_file_line rs s) =
     fold (\<lambda>(d, i) doc. add_data_to_json_file_data_dict d doc i) (add_calls rs s)
       (json_file_data s)"
  by (induction rs s rule: for_file_line.induct)
     (auto simp: loop_body_def split: prod.splits)

lemma record_id_add_calls:
  "record_id (for_file_line rs s) = record_id s + int (length (add_calls rs s))"
  by (induction rs s rule: for_file_line.induct)
     (auto simp: loop_body_def split: prod.splits)


lemma ids_Suc:
  "map (\<lambda>k. a + int k) [0..<Suc n] = a # map (\<lambda>k. a + 1 + int k) [0..<n]"
proof -
  have "[0..<Suc n] = 0 # map Suc [0..<n]"
    by (simp only: map_Suc_upt upt_conv_Cons [of 0 "Suc n"] zero_less_Suc)
  then have "map (\<lambda>k. a + int k) [0..<Suc n] = map (\<lambda>k. a + int k) (0 # map Suc [0..<n])"
    by (rule arg_cong)
  also have "\<dots> = a # map (\<lambda>k. a + 1 + int k) [0..<n]"
    by (simp add: o_def add.assoc)
  finally show ?thesis .
qed

lemma add_calls_ids:
  "map snd (add_calls rs s) = map (\<lambda>k. record_id s + int k) [0..<length (add_calls rs s)]"
proof (induction rs s rule: for_file_line.induct)
  case (1 s)
  show ?case by simp
next
  case (2 l rs s)
  obtain b d out where p: "process_txt_file_line l (meme_data_dict s) (printed s) = (b, d, out)"
    by (cases "process_txt_file_line l (meme_data_dict s) (printed s)") auto
  show ?case
  proof (cases b)
    case True
    have r: "record_id (loop_body l s) = record_id s"
      using p True by (simp add: loop_body_def)
    have c: "add_calls (Line l # rs) s = add_calls rs (loop_body l s)"
      using p True by simp
    show ?thesis unfolding c using "2.IH" r by simp
  next
    case False
    have r: "record_id (loop_body l s) = record_id s + 1"
      using p False by (simp add: loop_body_def)
    have c: "add_calls (Line l # rs) s = (d, record_id s) # add_calls rs (loop_body l s)"
      using p False by simp
    have "map snd ((d, record_id s) # add_calls rs (loop_body l s)) =
            record_id s # map (\<lambda>k. record_id s + 1 + int k)
                            [0..<length (add_calls rs (loop_body l s))]"
      using "2.IH" r by simp
    also have "\<dots> = map (\<lambda>k. record_id s + int k)
                       [0..<Suc (length (add_calls rs (loop_body l s)))]"
      by (rule ids_Suc [symmetric])
    finally show ?thesis unfolding c by simp
  qed
next
  case (3 rs s)
  show ?case by simp
qed


text \<open>The accumulator over lines that all split into two parts.\<close>

lemma loop_body_field_dict:
  assumes "length (line_parts l) = 2"
  shows "key_P (meme_data_dict (loop_body l s)) =
           (if line_tag l = ''P'' then line_content l else key_P (meme_data_dict s))"
    and "key_T (meme_data_dict (loop_body l s)) =
           (if line_tag l = ''T'' then line_content l else key_T (meme_data_dict s))"
    and "key_Q (meme_data_dict (loop_body l s)) =
           key_Q (meme_data_dict s) @ (if line_tag l = ''Q'' then [line_content l] else [])"
    and "key_L (meme_data_dict (loop_body l s)) =
           key_L (meme_data_dict s) @ (if line_tag l = ''L'' then [line_content l] else [])"
proof -
  from assms obtain t c where tc: "line_parts l = [t, c]"
    by (cases "line_parts l" rule: list.exhaust)
       (auto simp: length_Suc_conv)
  then have p: "str_split tab (str_strip l) = [t, c]" by (simp add: line_parts_def)
  show "key_P (meme_data_dict (loop_body l s)) =
           (if line_tag l = ''P'' then line_content l else key_P (meme_data_dict s))"
    and "key_T (meme_data_dict (loop_body l s)) =
           (if line_tag l = ''T'' then line_content l else key_T (meme_data_dict s))"
    and "key_Q (meme_data_dict (loop_body l s)) =
           key_Q (meme_data_dict s) @ (if line_tag l = ''Q'' then [line_content l] else [])"
    and "key_L (meme_data_dict (loop_body l s)) =
           key_L (meme_data_dict s) @ (if line_tag l = ''L'' then [line_content l] else [])"
    by (simp_all add: loop_body_def process_txt_file_line_def p line_tag_def line_content_def tc)
qed

lemma contents_of_Cons:
  "contents_of t (l # ls) = (if line_tag l = t then [line_content l] else []) @ contents_of t ls"
  by (simp add: contents_of_def)

lemma fields_dict:
  assumes "\<forall>l\<in>set ls. length (line_parts l) = 2"
  shows "key_P (meme_data_dict (for_file_line (map Line ls) s)) =
           (if contents_of ''P'' ls = [] then key_P (meme_data_dict s)
            else last (contents_of ''P'' ls))"
    and "key_T (meme_data_dict (for_file_line (map Line ls) s)) =
           (if contents_of ''T'' ls = [] then key_T (meme_data_dict s)
            else last (contents_of ''T'' ls))"
    and "key_Q (meme_data_dict (for_file_line (map Line ls) s)) =
           key_Q (meme_data_dict s) @ contents_of ''Q'' ls"
    and "key_L (meme_data_dict (for_file_line (map Line ls) s)) =
           key_L (meme_data_dict s) @ contents_of ''L'' ls"
  using assms
proof (induction ls arbitrary: s)
  case Nil
  {
    case 1 show ?case by (simp add: contents_of_def)
  next
    case 2 show ?case by (simp add: contents_of_def)
  next
    case 3 show ?case by (simp add: contents_of_def)
  next
    case 4 show ?case by (simp add: contents_of_def)
  }
next
  case (Cons l ls)
  {
    case 1 then show ?case
      using Cons.IH(1) [of "loop_body l s"]
      by (simp add: contents_of_Cons loop_body_field_dict)
  next
    case 2 then show ?case
      using Cons.IH(2) [of "loop_body l s"]
      by (simp add: contents_of_Cons loop_body_field_dict)
  next
    case 3 then show ?case
      using Cons.IH(3) [of "loop_body l s"]
      by (simp add: contents_of_Cons loop_body_field_dict)
  next
    case 4 then show ?case
      using Cons.IH(4) [of "loop_body l s"]
      by (simp add: contents_of_Cons loop_body_field_dict)
  }
qed


text \<open>Two-part lines at the end of the lines read store nothing.\<close>

lemma fields_tail:
  assumes "list_all field_line tail"
  shows "json_file_data (for_file_line (rs @ map Line tail) s) = json_file_data (for_file_line rs s)"
    and "record_id (for_file_line (rs @ map Line tail) s) = record_id (for_file_line rs s)"
    and "add_calls (rs @ map Line tail) s = add_calls rs s"
proof -
  have a: "\<forall>l\<in>set tail. length (line_parts l) = 2"
    using assms by (simp add: list_all_iff field_line_def)
  show "json_file_data (for_file_line (rs @ map Line tail) s) = json_file_data (for_file_line rs s)"
    by (simp add: for_file_line_append fields_only [OF a])
  show "record_id (for_file_line (rs @ map Line tail) s) = record_id (for_file_line rs s)"
    by (simp add: for_file_line_append fields_only [OF a])
  show "add_calls (rs @ map Line tail) s = add_calls rs s"
    by (simp add: add_calls_append fields_only [OF a])
qed

text \<open>The loop never removes a key of the document.\<close>

lemma keys_add:
  "fst ` set (add_data_to_json_file_data_dict d doc i) = insert (key_P d) (fst ` set doc)"
  by (simp add: add_data_to_json_file_data_dict_def dom_update)

lemma keys_loop_body: "fst ` set (json_file_data s) \<subseteq> fst ` set (json_file_data (loop_body l s))"
proof (cases "length (line_parts l) = 2")
  case True
  then show ?thesis by (simp add: loop_body_field)
next
  case False
  then show ?thesis by (auto simp: loop_body_boundary keys_add)
qed

lemma keys_for_file_line:
  "fst ` set (json_file_data s) \<subseteq> fst ` set (json_file_data (for_file_line rs s))"
proof (induction rs s rule: for_file_line.induct)
  case (2 l rs s)
  then show ?case using keys_loop_body [of s l] by auto
qed auto

text \<open>The loop over a file made of records, each closed by a boundary line.\<close>

lemma fields_dict_indep:
  assumes "\<forall>l\<in>set ls. length (line_parts l) = 2"
    and "meme_data_dict s = meme_data_dict s'"
  shows "meme_data_dict (for_file_line (map Line ls) s) =
         meme_data_dict (for_file_line (map Line ls) s')"
  by (rule tracker.equality) (simp_all add: fields_dict [OF assms(1)] assms(2))

lemma block_state:
  assumes "block_ok blk" and "meme_data_dict s = construct_meme_data_tracker_dict"
  shows "json_file_data (for_file_line (map Line (block_lines blk)) s) =
           add_data_to_json_file_data_dict (block_dict blk) (json_file_data s) (record_id s)"
    and "meme_data_dict (for_file_line (map Line (block_lines blk)) s) =
           construct_meme_data_tracker_dict"
    and "record_id (for_file_line (map Line (block_lines blk)) s) = record_id s + 1"
proof -
  have a: "\<forall>l\<in>set (fst blk). length (line_parts l) = 2"
    and b: "length (line_parts (snd blk)) \<noteq> 2"
    using assms(1) by (simp_all add: block_ok_def list_all_iff field_line_def)
  have c: "for_file_line (map Line (block_lines blk)) s =
           loop_body (snd blk) (for_file_line (map Line (fst blk)) s)"
    using for_file_line_Lines [of "fst blk" "[Line (snd blk)]" s]
    by (simp add: block_lines_def)
  have e: "meme_data_dict (for_file_line (map Line (fst blk)) s) = block_dict blk"
    unfolding block_dict_def
    by (rule fields_dict_indep [OF a]) (simp add: assms(2) initial_loop_state_def)
  show "json_file_data (for_file_line (map Line (block_lines blk)) s) =
           add_data_to_json_file_data_dict (block_dict blk) (json_file_data s) (record_id s)"
    by (simp add: c loop_body_boundary [OF b] e fields_only [OF a])
  show "meme_data_dict (for_file_line (map Line (block_lines blk)) s) =
           construct_meme_data_tracker_dict"
    by (simp add: c loop_body_boundary [OF b])
  show "record_id (for_file_line (map Line (block_lines blk)) s) = record_id s + 1"
    by (simp add: c loop_body_boundary [OF b] fields_only [OF a])
qed

lemma file_lines_of_Cons:
  "map Line (file_lines_of (blk # blocks)) =
     map Line (block_lines blk) @ map Line (file_lines_of blocks)"
  by (simp add: file_lines_of_def)

lemma file_lines_of_append:
  "file_lines_of (bs1 @ bs2) = file_lines_of bs1 @ file_lines_of bs2"
  by (simp add: file_lines_of_def)

lemma blocks_state:
  assumes "list_all block_ok blocks" and "meme_data_dict s = construct_meme_data_tracker_dict"
  shows "meme_data_dict (for_file_line (map Line (file_lines_of blocks)) s) =
           construct_meme_data_tracker_dict \<and>
         record_id (for_file_line (map Line (file_lines_of blocks)) s) =
           record_id s + int (length blocks)"
  using assms
proof (induction blocks arbitrary: s)
  case Nil
  then show ?case by (simp add: file_lines_of_def)
next
  case (Cons blk blocks)
  from Cons.prems have ok: "block_ok blk" and oks: "list_all block_ok blocks" by simp_all
  let ?s = "for_file_line (map Line (block_lines blk)) s"
  have e: "for_file_line (map Line (file_lines_of (blk # blocks))) s =
           for_file_line (map Line (file_lines_of blocks)) ?s"
    unfolding file_lines_of_Cons by (rule for_file_line_Lines)
  from Cons.IH [OF oks block_state(2) [OF ok Cons.prems(2)]]
  show ?case unfolding e by (simp add: block_state(3) [OF ok Cons.prems(2)])
qed

lemma map_of_add:
  "map_of (add_data_to_json_file_data_dict d doc i) =
     (map_of doc)(key_P d \<mapsto>
        \<lparr>url = key_P d, id_num = i, timestamp = key_T d, phrases = key_Q d, links = key_L d\<rparr>)"
  by (simp add: add_data_to_json_file_data_dict_def update_conv')

lemma distinct_add:
  "distinct (map fst doc) \<Longrightarrow> distinct (map fst (add_data_to_json_file_data_dict d doc i))"
  by (simp add: add_data_to_json_file_data_dict_def distinct_update)

lemma keys_add_new:
  "key_P d \<notin> fst ` set doc \<Longrightarrow>
   map fst (add_data_to_json_file_data_dict d doc i) = map fst doc @ [key_P d]"
  by (simp add: add_data_to_json_file_data_dict_def update_keys)

lemma blocks_other_url:
  assumes "list_all block_ok blocks" and "meme_data_dict s = construct_meme_data_tracker_dict"
    and "u \<notin> block_url ` set blocks"
  shows "map_of (json_file_data (for_file_line (map Line (file_lines_of blocks)) s)) u =
         map_of (json_file_data s) u"
  using assms
proof (induction blocks arbitrary: s)
  case Nil
  then show ?case by (simp add: file_lines_of_def)
next
  case (Cons blk blocks)
  from Cons.prems have ok: "block_ok blk" and oks: "list_all block_ok blocks" by simp_all
  from Cons.prems have u: "u \<noteq> block_url blk" and us: "u \<notin> block_url ` set blocks" by auto
  let ?s = "for_file_line (map Line (block_lines blk)) s"
  have e: "for_file_line (map Line (file_lines_of (blk # blocks))) s =
           for_file_line (map Line (file_lines_of blocks)) ?s"
    unfolding file_lines_of_Cons by (rule for_file_line_Lines)
  have "map_of (json_file_data ?s) u = map_of (json_file_data s) u"
    using u by (simp add: block_state(1) [OF ok Cons.prems(2)] map_of_add block_url_def)
  with Cons.IH [OF oks block_state(2) [OF ok Cons.prems(2)] us]
  show ?case unfolding e by simp
qed

lemma blocks_keys:
  assumes "list_all block_ok blocks" and "meme_data_dict s = construct_meme_data_tracker_dict"
  shows "fst ` set (json_file_data (for_file_line (map Line (file_lines_of blocks)) s)) =
         fst ` set (json_file_data s) \<union> block_url ` set blocks"
  using assms
proof (induction blocks arbitrary: s)
  case Nil
  then show ?case by (simp add: file_lines_of_def)
next
  case (Cons blk blocks)
  from Cons.prems have ok: "block_ok blk" and oks: "list_all block_ok blocks" by simp_all
  let ?s = "for_file_line (map Line (block_lines blk)) s"
  have e: "for_file_line (map Line (file_lines_of (blk # blocks))) s =
           for_file_line (map Line (file_lines_of blocks)) ?s"
    unfolding file_lines_of_Cons by (rule for_file_line_Lines)
  from Cons.IH [OF oks block_state(2) [OF ok Cons.prems(2)]]
  show ?case unfolding e
    by (simp add: block_state(1) [OF ok Cons.prems(2)] keys_add block_url_def)
qed

lemma distinct_keys_loop_body:
  "distinct (map fst (json_file_data s)) \<Longrightarrow> distinct (map fst (json_file_data (loop_body l s)))"
proof (cases "length (line_parts l) = 2")
  case True
  then show "distinct (map fst (json_file_data s)) \<Longrightarrow> ?thesis" by (simp add: loop_body_field)
next
  case False
  then show "distinct (map fst (json_file_data s)) \<Longrightarrow> ?thesis"
    by (simp add: loop_body_boundary distinct_add)
qed

lemma distinct_keys_for_file_line:
  "distinct (map fst (json_file_data s)) \<Longrightarrow>
   distinct (map fst (json_file_data (for_file_line rs s)))"
  by (induction rs s rule: for_file_line.induct) (auto simp: distinct_keys_loop_body)

lemma blocks_keys_order:
  assumes "list_all block_ok blocks" and "meme_data_dict s = construct_meme_data_tracker_dict"
    and "distinct (map block_url blocks)"
    and "fst ` set (json_file_data s) \<inter> block_url ` set blocks = {}"
  shows "map fst (json_file_data (for_file_line (map Line (file_lines_of blocks)) s)) =
         map fst (json_file_data s) @ map block_url blocks"
  using assms
proof (induction blocks arbitrary: s)
  case Nil
  then show ?case by (simp add: file_lines_of_def)
next
  case (Cons blk blocks)
  from Cons.prems have ok: "block_ok blk" and oks: "list_all block_ok blocks" by simp_all
  let ?s = "for_file_line (map Line (block_lines blk)) s"
  have e: "for_file_line (map Line (file_lines_of (blk # blocks))) s =
           for_file_line (map Line (file_lines_of blocks)) ?s"
    unfolding file_lines_of_Cons by (rule for_file_line_Lines)
  have new: "key_P (block_dict blk) \<notin> fst ` set (json_file_data s)"
    using Cons.prems(4) by (auto simp: block_url_def)
  have k: "map fst (json_file_data ?s) = map fst (json_file_data s) @ [block_url blk]"
    by (simp add: block_state(1) [OF ok Cons.prems(2)] keys_add_new [OF new] block_url_def)
  have d: "distinct (map block_url blocks)" using Cons.prems(3) by simp
  have "fst ` set (json_file_data ?s) = insert (block_url blk) (fst ` set (json_file_data s))"
    by (simp add: block_state(1) [OF ok Cons.prems(2)] keys_add block_url_def)
  then have i: "fst ` set (json_file_data ?s) \<inter> block_url ` set blocks = {}"
    using Cons.prems(3,4) by auto
  from Cons.IH [OF oks block_state(2) [OF ok Cons.prems(2)] d i]
  show ?case unfolding e by (simp add: k)
qed


text \<open>Evaluating the loop on given lines.\<close>

lemmas loop_eval = initial_loop_state_def loop_body_def process_txt_file_line_def
  add_data_to_json_file_data_dict_def construct_meme_data_tracker_dict_def

lemmas block_eval = block_ok_def block_lines_def file_lines_of_def block_dict_def
  block_url_def

text \<open>A call of \<open>convert_txt_file_to_json\<close> on an existing file that is not its own output file.\<close>

lemma final_loop_state_existing:
  assumes "files w (input_txt_file_path dir name) = Some rs"
    and "output_json_file_path outdir name ext \<noteq> input_txt_file_path dir name"
  shows "final_loop_state w dir name ext outdir n =
           for_file_line rs (initial_loop_state n (stdout w))"
  using assms by (simp add: final_loop_state_def open_output_def read_lines_def)

lemma convert_existing:
  assumes "files w (input_txt_file_path dir name) = Some rs"
    and "output_json_file_path outdir name ext \<noteq> input_txt_file_path dir name"
  shows "convert_txt_file_to_json os w dir name ext outdir n =
           (w\<lparr>files := (files w)
                 (output_json_file_path outdir name ext \<mapsto>
                    json_dump os
                      (json_file_data (for_file_line rs (initial_loop_state n (stdout w))))),
              stdout := printed (for_file_line rs (initial_loop_state n (stdout w)))\<rparr>,
            record_id (for_file_line rs (initial_loop_state n (stdout w))))"
  using assms(1) final_loop_state_existing [OF assms]
  by (simp add: convert_txt_file_to_json_def exist_file_def Let_def)

lemma file_add_calls_existing:
  assumes "files w (input_txt_file_path dir name) = Some rs"
    and "output_json_file_path outdir name ext \<noteq> input_txt_file_path dir name"
  shows "file_add_calls w dir name ext outdir n =
           add_calls rs (initial_loop_state n (stdout w))"
  using assms
  by (simp add: file_add_calls_def exist_file_def open_output_def read_lines_def)

text \<open>The counter and the ids of the storing calls, for a file and for a list of files.\<close>

lemma ids_append:
  "map (\<lambda>k. n + int k) [0..<a + b] =
     map (\<lambda>k. n + int k) [0..<a] @ map (\<lambda>k. n + int a + int k) [0..<b]"
proof -
  have "[0..<a + b] = [0..<a] @ map (\<lambda>k. k + a) [0..<b]"
    by (simp only: upt_add_eq_append [OF le0] map_add_upt add.commute [of b a])
  then have "map (\<lambda>k. n + int k) [0..<a + b] =
             map (\<lambda>k. n + int k) ([0..<a] @ map (\<lambda>k. k + a) [0..<b])"
    by (rule arg_cong)
  also have "\<dots> = map (\<lambda>k. n + int k) [0..<a] @ map (\<lambda>k. n + int a + int k) [0..<b]"
    by (simp add: o_def add.assoc add.commute)
  finally show ?thesis .
qed

lemma convert_counts_calls:
  "snd (convert_txt_file_to_json os w dir name ext outdir n) =
     n + int (length (file_add_calls w dir name ext outdir n))"
  by (simp add: convert_txt_file_to_json_def file_add_calls_def final_loop_state_def
        Let_def record_id_add_calls initial_loop_state_def)

lemma file_add_calls_ids:
  "map snd (file_add_calls w dir name ext outdir n) =
     map (\<lambda>k. n + int k) [0..<length (file_add_calls w dir name ext outdir n)]"
proof (cases "exist_file w (input_txt_file_path dir name)")
  case False
  then show ?thesis by (simp add: file_add_calls_def)
next
  case True
  let ?w1 = "open_output w (output_json_file_path outdir name ext)"
  let ?s = "initial_loop_state n (stdout ?w1)"
  have e: "file_add_calls w dir name ext outdir n =
           add_calls (read_lines ?w1 (input_txt_file_path dir name)) ?s"
    using True by (simp add: file_add_calls_def Let_def)
  have r: "record_id ?s = n" by (simp add: initial_loop_state_def)
  show ?thesis unfolding e
    using add_calls_ids [of "read_lines ?w1 (input_txt_file_path dir name)" ?s]
    by (simp only: r)
qed

lemma convert_writes_calls:
  assumes "exist_file w (input_txt_file_path dir name)"
  shows "files (fst (convert_txt_file_to_json os w dir name ext outdir n))
           (output_json_file_path outdir name ext) =
         Some (json_dump os
                 (fold (\<lambda>(d, i) doc. add_data_to_json_file_data_dict d doc i)
                    (file_add_calls w dir name ext outdir n) []))"
  using assms
  by (simp add: convert_txt_file_to_json_def file_add_calls_def final_loop_state_def
        Let_def json_file_data_add_calls initial_loop_state_def)

lemma loop_counts_calls:
  "snd (for_input_file_name os dir ext outdir names w n) =
     n + int (length (loop_add_calls os dir ext outdir names w n))"
proof (induction names arbitrary: w n)
  case Nil
  show ?case by simp
next
  case (Cons name names)
  obtain w' n' where c: "convert_txt_file_to_json os w dir name ext outdir n = (w', n')"
    by (cases "convert_txt_file_to_json os w dir name ext outdir n") auto
  have n': "n' = n + int (length (file_add_calls w dir name ext outdir n))"
    using convert_counts_calls [of os w dir name ext outdir n] c by simp
  show ?case using Cons.IH [of w' n'] by (simp add: c n')
qed

lemma loop_add_calls_ids:
  "map snd (loop_add_calls os dir ext outdir names w n) =
     map (\<lambda>k. n + int k) [0..<length (loop_add_calls os dir ext outdir names w n)]"
proof (induction names arbitrary: w n)
  case Nil
  show ?case by simp
next
  case (Cons name names)
  obtain w' n' where c: "convert_txt_file_to_json os w dir name ext outdir n = (w', n')"
    by (cases "convert_txt_file_to_json os w dir name ext outdir n") auto
  let ?a = "file_add_calls w dir name ext outdir n"
  let ?b = "loop_add_calls os dir ext outdir names w' n'"
  have n': "n' = n + int (length ?a)"
    using convert_counts_calls [of os w dir name ext outdir n] c by simp
  have e: "loop_add_calls os dir ext outdir (name # names) w n = ?a @ ?b"
    by (simp add: c)
  have "map snd (?a @ ?b) =
          map (\<lambda>k. n + int k) [0..<length ?a] @
          map (\<lambda>k. n + int (length ?a) + int k) [0..<length ?b]"
    using file_add_calls_ids [of w dir name ext outdir n] Cons.IH [of w' n']
    by (simp only: map_append n')
  also have "\<dots> = map (\<lambda>k. n + int k) [0..<length ?a + length ?b]"
    by (rule ids_append [symmetric])
  finally show ?case unfolding e by simp
qed

lemmas file_eval = convert_txt_file_to_json_def final_loop_state_def file_add_calls_def
  open_output_def read_lines_def exist_file_def exist_directory_def


section \<open>Claims about the record accumulator\<close>

text \<open>
  C1. When the stripped line, split on the tab character, does not give exactly two
  parts, \<open>process_txt_file_line\<close> returns \<open>False\<close>; the accumulator dictionary it was
  given is returned as it was, and nothing is printed.
\<close>

theorem boundary_line_returns_false:
  "length (line_parts file_line) \<noteq> 2 \<Longrightarrow>
   process_txt_file_line file_line d out = (False, d, out)"
  unfolding process_txt_file_line_def line_parts_def Let_def
  by (auto split: list.splits)

theorem boundary_line_returns_false_witness:
  "length (line_parts (''Q'' @ [tab] @ ''a'' @ [tab] @ ''b'' @ [newline])) \<noteq> 2 \<and>
   process_txt_file_line (''Q'' @ [tab] @ ''a'' @ [tab] @ ''b'' @ [newline])
       \<lparr>key_P = ''u'', key_T = ''t'', key_Q = [''q''], key_L = []\<rparr> [] =
     (False, \<lparr>key_P = ''u'', key_T = ''t'', key_Q = [''q''], key_L = []\<rparr>, [])"
proof -
  have h: "length (line_parts (''Q'' @ [tab] @ ''a'' @ [tab] @ ''b'' @ [newline])) \<noteq> 2"
    by (simp add: line_parts_def str_strip_def isspace_def tab_def newline_def)
  from boundary_line_returns_false [OF h] h show ?thesis by simp
qed

text \<open>
  C2. Over lines that all split into two parts, processed from a fresh accumulator (at
  the start of the file or after a record was stored): the \<open>'P'\<close> and \<open>'T'\<close> fields hold the
  content of the last line with that tag (the empty string when there is none), and
  the \<open>'Q'\<close> and \<open>'L'\<close> fields hold the contents of the lines with that tag, in the order
  of the lines.
\<close>

theorem accumulator_since_reset:
  assumes "list_all field_line file_lines"
    and "meme_data_dict s = construct_meme_data_tracker_dict"
  shows "meme_data_dict (for_file_line (map Line file_lines) s) =
           \<lparr>key_P = last_or_empty (contents_of ''P'' file_lines),
            key_T = last_or_empty (contents_of ''T'' file_lines),
            key_Q = contents_of ''Q'' file_lines,
            key_L = contents_of ''L'' file_lines\<rparr>"
proof -
  have a: "\<forall>l\<in>set file_lines. length (line_parts l) = 2"
    using assms(1) by (simp add: list_all_iff field_line_def)
  show ?thesis
    by (rule tracker.equality)
       (simp_all add: fields_dict [OF a] assms(2) construct_meme_data_tracker_dict_def
          last_or_empty_def)
qed

theorem accumulator_since_reset_witness:
  "list_all field_line
     [''P'' @ [tab] @ ''http://a.com'' @ [newline],
      ''Q'' @ [tab] @ ''hello world'' @ [newline],
      ''P'' @ [tab] @ ''http://b.com'' @ [newline],
      ''X'' @ [tab] @ ''other'' @ [newline],
      ''L'' @ [tab] @ ''http://c.com'' @ [newline],
      ''Q'' @ [tab] @ ''bye'' @ [newline]] \<and>
   meme_data_dict
     (for_file_line
        (map Line
           [''P'' @ [tab] @ ''http://a.com'' @ [newline],
            ''Q'' @ [tab] @ ''hello world'' @ [newline],
            ''P'' @ [tab] @ ''http://b.com'' @ [newline],
            ''X'' @ [tab] @ ''other'' @ [newline],
            ''L'' @ [tab] @ ''http://c.com'' @ [newline],
            ''Q'' @ [tab] @ ''bye'' @ [newline]])
        (initial_loop_state 0 [])) =
     \<lparr>key_P = ''http://b.com'', key_T = [],
      key_Q = [''hello world'', ''bye''], key_L = [''http://c.com'']\<rparr>"
proof -
  have h: "list_all field_line
     [''P'' @ [tab] @ ''http://a.com'' @ [newline],
      ''Q'' @ [tab] @ ''hello world'' @ [newline],
      ''P'' @ [tab] @ ''http://b.com'' @ [newline],
      ''X'' @ [tab] @ ''other'' @ [newline],
      ''L'' @ [tab] @ ''http://c.com'' @ [newline],
      ''Q'' @ [tab] @ ''bye'' @ [newline]]"
    by (simp add: line_eval)
  have r: "meme_data_dict (initial_loop_state 0 []) = construct_meme_data_tracker_dict"
    by (simp add: initial_loop_state_def)
  from accumulator_since_reset [OF h r] h show ?thesis
    by (simp add: contents_of_def last_or_empty_def line_eval)
qed

text \<open>
  C6. Only the whitespace at the end of the raw line is to be removed before the split,
  as the comment above the call says (clear the line of any trailing whitespace or
  newline characters); the string that is split is then \<open>file_line.rstrip()\<close>. The code
  calls \<open>file_line.strip()\<close>, which removes the whitespace at the start too. On a line
  that starts with a space before the tag \<open>P\<close> the code sets the url, where the tag kept
  with its space is not one of the four tags; on a line that starts with the tab the
  code sees one part and returns \<open>False\<close>, a record boundary, where the line kept whole
  has two parts, an empty tag and a content.
\<close>

theorem strip_removes_leading_whitespace:
  "str_split tab (str_rstrip ('' P'' @ [tab] @ ''x'' @ [newline])) = ['' P'', ''x''] \<and>
   line_parts ('' P'' @ [tab] @ ''x'' @ [newline]) = [''P'', ''x''] \<and>
   process_txt_file_line ('' P'' @ [tab] @ ''x'' @ [newline])
       construct_meme_data_tracker_dict [] =
     (True, construct_meme_data_tracker_dict\<lparr>key_P := ''x''\<rparr>, []) \<and>
   str_split tab (str_rstrip ([tab] @ ''foo'' @ [newline])) = [[], ''foo''] \<and>
   line_parts ([tab] @ ''foo'' @ [newline]) = [''foo''] \<and>
   process_txt_file_line ([tab] @ ''foo'' @ [newline])
       construct_meme_data_tracker_dict [] =
     (False, construct_meme_data_tracker_dict, [])"
  by (simp add: process_txt_file_line_def line_parts_def str_strip_def str_rstrip_def
        isspace_def tab_def newline_def)


section \<open>Claims about the file converter\<close>

text \<open>
  C8. When the input path is not an existing file, \<open>convert_txt_file_to_json\<close> prints
  one message and returns the counter it was given; the files and the directories are
  as they were, so no output file is created or written.
\<close>

theorem missing_input_file_is_no_op:
  assumes "\<not> exist_file w (input_txt_file_path dir name)"
  shows "convert_txt_file_to_json os w dir name ext outdir n =
           (w\<lparr>stdout := stdout w @
                 [''The path to the given input txt file is invalid. File Path: '' @
                  input_txt_file_path dir name]\<rparr>, n) \<and>
         files (fst (convert_txt_file_to_json os w dir name ext outdir n)) = files w \<and>
         dirs (fst (convert_txt_file_to_json os w dir name ext outdir n)) = dirs w"
  using assms by (simp add: convert_txt_file_to_json_def)

theorem missing_input_file_is_no_op_witness:
  "\<forall>os. \<not> exist_file \<lparr>files = Map.empty, dirs = {''in'', ''out''}, stdout = []\<rparr>
            (input_txt_file_path ''in'' ''a.txt'') \<and>
     convert_txt_file_to_json os \<lparr>files = Map.empty, dirs = {''in'', ''out''}, stdout = []\<rparr>
         ''in'' ''a.txt'' ''.txt'' ''out'' 7 =
       (\<lparr>files = Map.empty, dirs = {''in'', ''out''},
         stdout = [''The path to the given input txt file is invalid. File Path: in/a.txt'']\<rparr>,
        7)"
proof
  fix os
  have h: "\<not> exist_file \<lparr>files = Map.empty, dirs = {''in'', ''out''}, stdout = []\<rparr>
            (input_txt_file_path ''in'' ''a.txt'')"
    by (simp add: exist_file_def)
  from missing_input_file_is_no_op [OF h, of os "''.txt''" "''out''" 7] h
  show "\<not> exist_file \<lparr>files = Map.empty, dirs = {''in'', ''out''}, stdout = []\<rparr>
            (input_txt_file_path ''in'' ''a.txt'') \<and>
     convert_txt_file_to_json os \<lparr>files = Map.empty, dirs = {''in'', ''out''}, stdout = []\<rparr>
         ''in'' ''a.txt'' ''.txt'' ''out'' 7 =
       (\<lparr>files = Map.empty, dirs = {''in'', ''out''},
         stdout = [''The path to the given input txt file is invalid. File Path: in/a.txt'']\<rparr>,
        7)"
    by (simp add: path_eval)
qed

text \<open>
  C5, as the spec states it: a line that cannot be decoded is skipped and the lines after
  it are processed. It fails on a file whose second line cannot be decoded: the record
  that the later lines complete is not stored and the counter stays at 0, where the same
  file without that line stores the record and returns 1.
\<close>

theorem decode_error_skips_line_counterexample:
  "json_file_data
     (for_file_line
        [Line (''P'' @ [tab] @ ''a'' @ [newline]), UnicodeDecodeError,
         Line (''Q'' @ [tab] @ ''x'' @ [newline]), Line [newline]]
        (initial_loop_state 0 [])) = [] \<and>
   record_id
     (for_file_line
        [Line (''P'' @ [tab] @ ''a'' @ [newline]), UnicodeDecodeError,
         Line (''Q'' @ [tab] @ ''x'' @ [newline]), Line [newline]]
        (initial_loop_state 0 [])) = 0 \<and>
   json_file_data
     (for_file_line
        [Line (''P'' @ [tab] @ ''a'' @ [newline]),
         Line (''Q'' @ [tab] @ ''x'' @ [newline]), Line [newline]]
        (initial_loop_state 0 [])) =
     [(''a'', \<lparr>url = ''a'', id_num = 0, timestamp = [], phrases = [''x''], links = []\<rparr>)] \<and>
   record_id
     (for_file_line
        [Line (''P'' @ [tab] @ ''a'' @ [newline]),
         Line (''Q'' @ [tab] @ ''x'' @ [newline]), Line [newline]]
        (initial_loop_state 0 [])) = 1"
  by (simp add: loop_eval line_eval)


text \<open>
  C5, amended. The first line that cannot be decoded ends the reading of the file: the
  message is printed once, no later line is processed, the records stored before the
  failure are written to the output file, and the counter returned counts them alone.
\<close>

theorem decode_error_ends_the_loop:
  assumes "files w (input_txt_file_path dir name) =
             Some (map Line file_lines @ UnicodeDecodeError # rest)"
    and "output_json_file_path outdir name ext \<noteq> input_txt_file_path dir name"
  shows "convert_txt_file_to_json os w dir name ext outdir n =
           (w\<lparr>files := (files w)
                 (output_json_file_path outdir name ext \<mapsto>
                    json_dump os
                      (json_file_data
                         (for_file_line (map Line file_lines)
                            (initial_loop_state n (stdout w))))),
              stdout :=
                printed (for_file_line (map Line file_lines) (initial_loop_state n (stdout w)))
                @ [''Unicode Decode Error. Character Mapped to undefined'']\<rparr>,
            record_id (for_file_line (map Line file_lines) (initial_loop_state n (stdout w))))"
  unfolding convert_existing [OF assms] for_file_line_Lines
  by simp

theorem decode_error_ends_the_loop_witness:
  "\<forall>os.
     convert_txt_file_to_json os
       \<lparr>files = [''in/a.txt'' \<mapsto>
                   map Line [''P'' @ [tab] @ ''a'' @ [newline], [newline],
                             ''P'' @ [tab] @ ''b'' @ [newline]] @
                   UnicodeDecodeError # [Line [newline]]],
        dirs = {''in'', ''out''}, stdout = []\<rparr>
       ''in'' ''a.txt'' ''.txt'' ''out'' 0 =
     (\<lparr>files = [''in/a.txt'' \<mapsto>
                   map Line [''P'' @ [tab] @ ''a'' @ [newline], [newline],
                             ''P'' @ [tab] @ ''b'' @ [newline]] @
                   UnicodeDecodeError # [Line [newline]],
                 ''out/a.json'' \<mapsto>
                   json_dump os
                     [(''a'', \<lparr>url = ''a'', id_num = 0, timestamp = [], phrases = [],
                               links = []\<rparr>)]],
        dirs = {''in'', ''out''},
        stdout = [''Unicode Decode Error. Character Mapped to undefined'']\<rparr>, 1)"
proof
  fix os
  let ?w = "\<lparr>files = [''in/a.txt'' \<mapsto>
                   map Line [''P'' @ [tab] @ ''a'' @ [newline], [newline],
                             ''P'' @ [tab] @ ''b'' @ [newline]] @
                   UnicodeDecodeError # [Line [newline]]],
        dirs = {''in'', ''out''}, stdout = []\<rparr>"
  have a: "files ?w (input_txt_file_path ''in'' ''a.txt'') =
      Some (map Line [''P'' @ [tab] @ ''a'' @ [newline], [newline],
                             ''P'' @ [tab] @ ''b'' @ [newline]] @
                   UnicodeDecodeError # [Line [newline]])"
    by (simp add: path_eval)
  have b: "output_json_file_path ''out'' ''a.txt'' ''.txt'' \<noteq> input_txt_file_path ''in'' ''a.txt''"
    by (simp add: path_eval)
  have c: "output_json_file_path ''out'' ''a.txt'' ''.txt'' = ''out/a.json''"
    by (simp add: path_eval)
  show "convert_txt_file_to_json os ?w ''in'' ''a.txt'' ''.txt'' ''out'' 0 =
     (\<lparr>files = [''in/a.txt'' \<mapsto>
                   map Line [''P'' @ [tab] @ ''a'' @ [newline], [newline],
                             ''P'' @ [tab] @ ''b'' @ [newline]] @
                   UnicodeDecodeError # [Line [newline]],
                 ''out/a.json'' \<mapsto>
                   json_dump os
                     [(''a'', \<lparr>url = ''a'', id_num = 0, timestamp = [], phrases = [],
                               links = []\<rparr>)]],
        dirs = {''in'', ''out''},
        stdout = [''Unicode Decode Error. Character Mapped to undefined'']\<rparr>, 1)"
    unfolding decode_error_ends_the_loop [OF a b, of os 0] c
    by (simp add: loop_eval line_eval)
qed


text \<open>
  C4. When the lines of the input file end with lines that all split into two parts
  (a record with no boundary line after it), \<open>convert_txt_file_to_json\<close> returns the
  counter, writes the document and makes the storing calls of the lines before them
  alone: the pending record is not stored and not counted.
\<close>

theorem pending_record_dropped_at_end_of_file:
  assumes "files w (input_txt_file_path dir name) = Some (rs @ map Line tail)"
    and "list_all field_line tail"
    and "output_json_file_path outdir name ext \<noteq> input_txt_file_path dir name"
  shows "snd (convert_txt_file_to_json os w dir name ext outdir n) =
           record_id (for_file_line rs (initial_loop_state n (stdout w))) \<and>
         files (fst (convert_txt_file_to_json os w dir name ext outdir n))
             (output_json_file_path outdir name ext) =
           Some (json_dump os
                   (json_file_data (for_file_line rs (initial_loop_state n (stdout w))))) \<and>
         file_add_calls w dir name ext outdir n =
           add_calls rs (initial_loop_state n (stdout w))"
  by (simp add: convert_existing [OF assms(1,3)] file_add_calls_existing [OF assms(1,3)]
        fields_tail [OF assms(2)])

theorem pending_record_dropped_at_end_of_file_witness:
  "\<forall>os.
     list_all field_line [''P'' @ [tab] @ ''b'' @ [newline], ''Q'' @ [tab] @ ''x''] \<and>
     snd (convert_txt_file_to_json os
            \<lparr>files = [''in/a.txt'' \<mapsto>
                        [Line (''P'' @ [tab] @ ''a'' @ [newline]), Line [newline]] @
                        map Line [''P'' @ [tab] @ ''b'' @ [newline], ''Q'' @ [tab] @ ''x'']],
             dirs = {''in'', ''out''}, stdout = []\<rparr>
            ''in'' ''a.txt'' ''.txt'' ''out'' 0) = 1 \<and>
     files (fst (convert_txt_file_to_json os
            \<lparr>files = [''in/a.txt'' \<mapsto>
                        [Line (''P'' @ [tab] @ ''a'' @ [newline]), Line [newline]] @
                        map Line [''P'' @ [tab] @ ''b'' @ [newline], ''Q'' @ [tab] @ ''x'']],
             dirs = {''in'', ''out''}, stdout = []\<rparr>
            ''in'' ''a.txt'' ''.txt'' ''out'' 0)) ''out/a.json'' =
       Some (json_dump os
               [(''a'', \<lparr>url = ''a'', id_num = 0, timestamp = [], phrases = [],
                         links = []\<rparr>)])"
proof
  fix os
  let ?w = "\<lparr>files = [''in/a.txt'' \<mapsto>
                        [Line (''P'' @ [tab] @ ''a'' @ [newline]), Line [newline]] @
                        map Line [''P'' @ [tab] @ ''b'' @ [newline], ''Q'' @ [tab] @ ''x'']],
             dirs = {''in'', ''out''}, stdout = []\<rparr>"
  have a: "files ?w (input_txt_file_path ''in'' ''a.txt'') =
      Some ([Line (''P'' @ [tab] @ ''a'' @ [newline]), Line [newline]] @
                        map Line [''P'' @ [tab] @ ''b'' @ [newline], ''Q'' @ [tab] @ ''x''])"
    by (simp add: path_eval)
  have b: "list_all field_line [''P'' @ [tab] @ ''b'' @ [newline], ''Q'' @ [tab] @ ''x'']"
    by (simp add: line_eval)
  have c: "output_json_file_path ''out'' ''a.txt'' ''.txt'' \<noteq> input_txt_file_path ''in'' ''a.txt''"
    by (simp add: path_eval)
  have e: "output_json_file_path ''out'' ''a.txt'' ''.txt'' = ''out/a.json''"
    by (simp add: path_eval)
  from pending_record_dropped_at_end_of_file [OF a b c, of os 0] b
  show "list_all field_line [''P'' @ [tab] @ ''b'' @ [newline], ''Q'' @ [tab] @ ''x''] \<and>
     snd (convert_txt_file_to_json os ?w ''in'' ''a.txt'' ''.txt'' ''out'' 0) = 1 \<and>
     files (fst (convert_txt_file_to_json os ?w ''in'' ''a.txt'' ''.txt'' ''out'' 0))
         ''out/a.json'' =
       Some (json_dump os
               [(''a'', \<lparr>url = ''a'', id_num = 0, timestamp = [], phrases = [],
                         links = []\<rparr>)])"
    unfolding e by (simp add: loop_eval line_eval)
qed


text \<open>
  C10. A boundary line stores a record whatever the accumulator holds: the body of the
  loop, on a line that does not split into two parts, stores the accumulator under its
  url with the current id, resets it and adds 1 to the counter. After two boundary
  lines in a row the document has, under the empty url, the record with that url, an
  empty timestamp, no phrases and no links, with the id that follows the id of the first
  boundary; the counter went up by 2, and the key stays in the document whatever lines
  follow.
\<close>

theorem boundary_always_stores:
  assumes "\<not> field_line b1" and "\<not> field_line b2"
  shows "loop_body b1 s =
           \<lparr>json_file_data =
              add_data_to_json_file_data_dict (meme_data_dict s) (json_file_data s)
                (record_id s),
            meme_data_dict = construct_meme_data_tracker_dict,
            record_id = record_id s + 1,
            printed = printed s\<rparr> \<and>
         map_of (json_file_data (for_file_line [Line b1, Line b2] s)) [] =
           Some \<lparr>url = [], id_num = record_id s + 1, timestamp = [], phrases = [],
                 links = []\<rparr> \<and>
         record_id (for_file_line [Line b1, Line b2] s) = record_id s + 2 \<and>
         [] \<in> fst ` set (json_file_data (for_file_line (Line b1 # Line b2 # rs) s))"
proof -
  have a: "length (line_parts b1) \<noteq> 2" and b: "length (line_parts b2) \<noteq> 2"
    using assms by (simp_all add: field_line_def)
  have c: "map_of (json_file_data (for_file_line [Line b1, Line b2] s)) [] =
           Some \<lparr>url = [], id_num = record_id s + 1, timestamp = [], phrases = [],
                 links = []\<rparr>"
    by (simp add: loop_body_boundary [OF a] loop_body_boundary [OF b]
          add_data_to_json_file_data_dict_def construct_meme_data_tracker_dict_def
          update_conv')
  have "[] \<in> fst ` set (json_file_data (for_file_line [Line b1, Line b2] s))"
    using c by (metis map_of_eq_None_iff option.distinct(1))
  then have e: "[] \<in> fst ` set (json_file_data (for_file_line (Line b1 # Line b2 # rs) s))"
    using keys_for_file_line [of "loop_body b2 (loop_body b1 s)" rs] by auto
  show ?thesis
    using c e by (simp add: loop_body_boundary [OF a] loop_body_boundary [OF b])
qed

theorem boundary_always_stores_witness:
  "\<not> field_line [newline] \<and>
   for_file_line [Line [newline], Line [newline]] (initial_loop_state 0 []) =
     \<lparr>json_file_data =
        [([], \<lparr>url = [], id_num = 1, timestamp = [], phrases = [], links = []\<rparr>)],
      meme_data_dict = construct_meme_data_tracker_dict,
      record_id = 2,
      printed = []\<rparr> \<and>
   map_of (json_file_data (for_file_line [Line [newline], Line [newline]]
             (initial_loop_state 0 []))) [] =
     Some \<lparr>url = [], id_num = 1, timestamp = [], phrases = [], links = []\<rparr>"
proof -
  have h: "\<not> field_line [newline]" by (simp add: line_eval)
  have e: "for_file_line [Line [newline], Line [newline]] (initial_loop_state 0 []) =
     \<lparr>json_file_data =
        [([], \<lparr>url = [], id_num = 1, timestamp = [], phrases = [], links = []\<rparr>)],
      meme_data_dict = construct_meme_data_tracker_dict,
      record_id = 2,
      printed = []\<rparr>"
    by (simp add: loop_eval line_eval)
  have r: "record_id (initial_loop_state 0 []) + 1 = 1" by (simp add: initial_loop_state_def)
  from boundary_always_stores [OF h h, of "initial_loop_state 0 []" "[]"] h e r
  show ?thesis by simp
qed


text \<open>
  C9. The output file name is \<open>input_txt_file_name.replace(input_txt_file_extension,
  '.json')\<close>, which replaces every occurrence of the extension in the name. For the name
  \<open>a.txt.txt\<close> and the extension \<open>.txt\<close> the code gives \<open>a.json.json\<close>, where the base name
  followed by \<open>.json\<close> is \<open>a.txt.json\<close>.
\<close>

theorem output_name_replaces_every_occurrence:
  "output_json_file_name ''a.txt.txt'' ''.txt'' = ''a.json.json'' \<and>
   output_json_file_name ''a.txt.txt'' ''.txt'' \<noteq> ''a.txt'' @ ''.json'' \<and>
   (\<forall>os.
      files (fst (convert_txt_file_to_json os
                    \<lparr>files = [''in/a.txt.txt'' \<mapsto> []], dirs = {''in'', ''out''},
                     stdout = []\<rparr>
                    ''in'' ''a.txt.txt'' ''.txt'' ''out'' 0)) ''out/a.json.json'' =
        Some (json_dump os []) \<and>
      files (fst (convert_txt_file_to_json os
                    \<lparr>files = [''in/a.txt.txt'' \<mapsto> []], dirs = {''in'', ''out''},
                     stdout = []\<rparr>
                    ''in'' ''a.txt.txt'' ''.txt'' ''out'' 0)) ''out/a.txt.json'' = None)"
  by (simp add: file_eval path_eval initial_loop_state_def)

text \<open>
  C7. For an input file made of records, each closed by a boundary line, the document
  that \<open>convert_txt_file_to_json\<close> writes has one key for each url of a record, each
  once. When the urls of the records are all different it has as many keys as there
  are records, in the order of the records. Under the url of a record that no later
  record shares it holds the data of that record, with the id of its position: with a
  repeated url, the data of the last record with it.
\<close>

theorem records_keyed_by_url:
  assumes f: "files w (input_txt_file_path dir name) = Some (map Line (file_lines_of blocks))"
    and p: "output_json_file_path outdir name ext \<noteq> input_txt_file_path dir name"
    and ok: "list_all block_ok blocks"
  shows "files (fst (convert_txt_file_to_json os w dir name ext outdir n))
             (output_json_file_path outdir name ext) =
           Some (json_dump os (json_file_data (final_loop_state w dir name ext outdir n))) \<and>
         distinct (map fst (json_file_data (final_loop_state w dir name ext outdir n))) \<and>
         length (json_file_data (final_loop_state w dir name ext outdir n)) =
           card (block_url ` set blocks) \<and>
         (distinct (map block_url blocks) \<longrightarrow>
            map fst (json_file_data (final_loop_state w dir name ext outdir n)) =
              map block_url blocks \<and>
            length (json_file_data (final_loop_state w dir name ext outdir n)) =
              length blocks) \<and>
         (\<forall>bs1 blk bs2.
            blocks = bs1 @ blk # bs2 \<longrightarrow> block_url blk \<notin> block_url ` set bs2 \<longrightarrow>
            map_of (json_file_data (final_loop_state w dir name ext outdir n)) (block_url blk) =
              Some \<lparr>url = block_url blk, id_num = n + int (length bs1),
                    timestamp = key_T (block_dict blk), phrases = key_Q (block_dict blk),
                    links = key_L (block_dict blk)\<rparr>)"
proof -
  let ?s0 = "initial_loop_state n (stdout w)"
  let ?doc = "json_file_data (for_file_line (map Line (file_lines_of blocks)) ?s0)"
  have fls: "final_loop_state w dir name ext outdir n =
             for_file_line (map Line (file_lines_of blocks)) ?s0"
    by (rule final_loop_state_existing [OF f p])
  have fresh: "meme_data_dict ?s0 = construct_meme_data_tracker_dict"
    and empty: "json_file_data ?s0 = []" and start: "record_id ?s0 = n"
    by (simp_all add: initial_loop_state_def)
  have c1: "files (fst (convert_txt_file_to_json os w dir name ext outdir n))
             (output_json_file_path outdir name ext) = Some (json_dump os ?doc)"
    by (simp add: convert_existing [OF f p])
  have c2: "distinct (map fst ?doc)"
    by (rule distinct_keys_for_file_line) (simp add: empty)
  have keys: "set (map fst ?doc) = block_url ` set blocks"
    using blocks_keys [OF ok fresh] by (simp add: empty)
  have "length ?doc = length (map fst ?doc)" by simp
  also have "\<dots> = card (set (map fst ?doc))" using c2 by (rule distinct_card [symmetric])
  finally have c3: "length ?doc = card (block_url ` set blocks)" by (simp only: keys)
  have c4: "map fst ?doc = map block_url blocks \<and> length ?doc = length blocks"
    if d: "distinct (map block_url blocks)"
  proof -
    have m: "map fst ?doc = map block_url blocks"
      using blocks_keys_order [OF ok fresh d] by (simp add: empty)
    have "length ?doc = length (map fst ?doc)" by simp
    also have "\<dots> = length (map block_url blocks)" by (simp only: m)
    finally have "length ?doc = length blocks" by simp
    with m show ?thesis by simp
  qed
  have c5: "map_of ?doc (block_url blk) =
              Some \<lparr>url = block_url blk, id_num = n + int (length bs1),
                    timestamp = key_T (block_dict blk), phrases = key_Q (block_dict blk),
                    links = key_L (block_dict blk)\<rparr>"
    if b: "blocks = bs1 @ blk # bs2" and u: "block_url blk \<notin> block_url ` set bs2"
    for bs1 blk bs2
  proof -
    from ok b have ok1: "list_all block_ok bs1" and okb: "block_ok blk"
      and ok2: "list_all block_ok bs2" by simp_all
    let ?s1 = "for_file_line (map Line (file_lines_of bs1)) ?s0"
    let ?s2 = "for_file_line (map Line (block_lines blk)) ?s1"
    have s1: "meme_data_dict ?s1 = construct_meme_data_tracker_dict"
      and i1: "record_id ?s1 = n + int (length bs1)"
      using blocks_state [OF ok1 fresh] by (simp_all add: start)
    have s2: "meme_data_dict ?s2 = construct_meme_data_tracker_dict"
      by (rule block_state(2) [OF okb s1])
    have "map Line (file_lines_of blocks) =
            map Line (file_lines_of bs1) @ map Line (block_lines blk) @
            map Line (file_lines_of bs2)"
      unfolding b file_lines_of_append by (simp add: file_lines_of_def)
    then have e: "for_file_line (map Line (file_lines_of blocks)) ?s0 =
                  for_file_line (map Line (file_lines_of bs2)) ?s2"
      by (simp only: for_file_line_Lines)
    have "map_of (json_file_data ?s2) (block_url blk) =
            Some \<lparr>url = block_url blk, id_num = n + int (length bs1),
                  timestamp = key_T (block_dict blk), phrases = key_Q (block_dict blk),
                  links = key_L (block_dict blk)\<rparr>"
      by (simp add: block_state(1) [OF okb s1] map_of_add i1 block_url_def)
    with blocks_other_url [OF ok2 s2 u] show ?thesis unfolding e by simp
  qed
  show ?thesis unfolding fls using c1 c2 c3 c4 c5 by blast
qed


theorem records_keyed_by_url_witness:
  "list_all block_ok
     [([''P'' @ [tab] @ ''a'' @ [newline], ''Q'' @ [tab] @ ''x'' @ [newline]], [newline]),
      ([''P'' @ [tab] @ ''b'' @ [newline]], [newline])] \<and>
   distinct (map block_url
     [([''P'' @ [tab] @ ''a'' @ [newline], ''Q'' @ [tab] @ ''x'' @ [newline]], [newline]),
      ([''P'' @ [tab] @ ''b'' @ [newline]], [newline])]) \<and>
   length (json_file_data (final_loop_state
     \<lparr>files = [''in/a.txt'' \<mapsto> map Line (file_lines_of
        [([''P'' @ [tab] @ ''a'' @ [newline], ''Q'' @ [tab] @ ''x'' @ [newline]], [newline]),
         ([''P'' @ [tab] @ ''b'' @ [newline]], [newline])])],
      dirs = {''in'', ''out''}, stdout = []\<rparr> ''in'' ''a.txt'' ''.txt'' ''out'' 0)) = 2 \<and>
   list_all block_ok
     [([''P'' @ [tab] @ ''a'' @ [newline], ''Q'' @ [tab] @ ''x'' @ [newline]], [newline]),
      ([''P'' @ [tab] @ ''a'' @ [newline], ''Q'' @ [tab] @ ''y'' @ [newline]], [newline])] \<and>
   length (json_file_data (final_loop_state
     \<lparr>files = [''in/a.txt'' \<mapsto> map Line (file_lines_of
        [([''P'' @ [tab] @ ''a'' @ [newline], ''Q'' @ [tab] @ ''x'' @ [newline]], [newline]),
         ([''P'' @ [tab] @ ''a'' @ [newline], ''Q'' @ [tab] @ ''y'' @ [newline]],
          [newline])])],
      dirs = {''in'', ''out''}, stdout = []\<rparr> ''in'' ''a.txt'' ''.txt'' ''out'' 0)) = 1 \<and>
   map_of (json_file_data (final_loop_state
     \<lparr>files = [''in/a.txt'' \<mapsto> map Line (file_lines_of
        [([''P'' @ [tab] @ ''a'' @ [newline], ''Q'' @ [tab] @ ''x'' @ [newline]], [newline]),
         ([''P'' @ [tab] @ ''a'' @ [newline], ''Q'' @ [tab] @ ''y'' @ [newline]],
          [newline])])],
      dirs = {''in'', ''out''}, stdout = []\<rparr> ''in'' ''a.txt'' ''.txt'' ''out'' 0)) ''a'' =
     Some \<lparr>url = ''a'', id_num = 1, timestamp = [], phrases = [''y''], links = []\<rparr>"
proof -
  let ?b1 = "([''P'' @ [tab] @ ''a'' @ [newline], ''Q'' @ [tab] @ ''x'' @ [newline]], [newline])"
  let ?b2 = "([''P'' @ [tab] @ ''b'' @ [newline]], [newline])"
  let ?b3 = "([''P'' @ [tab] @ ''a'' @ [newline], ''Q'' @ [tab] @ ''y'' @ [newline]], [newline])"
  let ?w1 = "\<lparr>files = [''in/a.txt'' \<mapsto> map Line (file_lines_of [?b1, ?b2])],
              dirs = {''in'', ''out''}, stdout = []\<rparr>"
  let ?w2 = "\<lparr>files = [''in/a.txt'' \<mapsto> map Line (file_lines_of [?b1, ?b3])],
              dirs = {''in'', ''out''}, stdout = []\<rparr>"
  have p: "output_json_file_path ''out'' ''a.txt'' ''.txt'' \<noteq> input_txt_file_path ''in'' ''a.txt''"
    by (simp add: path_eval)
  have f1: "files ?w1 (input_txt_file_path ''in'' ''a.txt'') =
              Some (map Line (file_lines_of [?b1, ?b2]))"
    by (simp add: path_eval)
  have f2: "files ?w2 (input_txt_file_path ''in'' ''a.txt'') =
              Some (map Line (file_lines_of [?b1, ?b3]))"
    by (simp add: path_eval)
  have ok1: "list_all block_ok [?b1, ?b2]" by (simp add: block_eval line_eval)
  have ok2: "list_all block_ok [?b1, ?b3]" by (simp add: block_eval line_eval)
  have d1: "distinct (map block_url [?b1, ?b2])"
    by (simp add: block_eval loop_eval line_eval)
  note t1 = records_keyed_by_url [OF f1 p ok1, of _ 0]
  note t2 = records_keyed_by_url [OF f2 p ok2, of _ 0]
  from t1 d1 have r1: "length (json_file_data (final_loop_state ?w1 ''in'' ''a.txt'' ''.txt''
      ''out'' 0)) = 2"
    by simp
  from t2 have r2: "length (json_file_data (final_loop_state ?w2 ''in'' ''a.txt'' ''.txt''
      ''out'' 0)) = 1"
    by (simp add: block_eval loop_eval line_eval)
  have "[?b1, ?b3] = [?b1] @ ?b3 # []" by simp
  moreover have "block_url ?b3 \<notin> block_url ` set []" by simp
  ultimately have "map_of (json_file_data (final_loop_state ?w2 ''in'' ''a.txt'' ''.txt''
      ''out'' 0)) (block_url ?b3) =
      Some \<lparr>url = block_url ?b3, id_num = 0 + int (length [?b1]),
            timestamp = key_T (block_dict ?b3), phrases = key_Q (block_dict ?b3),
            links = key_L (block_dict ?b3)\<rparr>"
    using t2 by blast
  then have r3: "map_of (json_file_data (final_loop_state ?w2 ''in'' ''a.txt'' ''.txt''
      ''out'' 0)) ''a'' =
      Some \<lparr>url = ''a'', id_num = 1, timestamp = [], phrases = [''y''], links = []\<rparr>"
    by (simp add: block_eval loop_eval line_eval)
  from ok1 d1 r1 ok2 r2 r3 show ?thesis by blast
qed


section \<open>Claims about the batch driver\<close>

text \<open>
  C3. One call of \<open>convert_txt_file_to_json\<close> returns the counter it was given plus the
  number of records it stored, and the ids of those records are the counter it was
  given, then the next integer, and so on. The loop over the file names hands the
  counter returned for one file to the next, so it returns the start plus the number
  of records stored in all the files; and \<open>convert_txt_files_from_directory\<close> starts it
  at 0, so the ids of the records it stores, in the order they are stored across the
  files, are 0, 1, 2, ... with no gap and no repeat. The document written for a file
  is the one that these storing calls build, in their order, from the empty document.
\<close>

theorem record_ids_count_from_zero:
  "snd (convert_txt_file_to_json os w dir name ext outdir n) =
     n + int (length (file_add_calls w dir name ext outdir n)) \<and>
   map snd (file_add_calls w dir name ext outdir n) =
     map (\<lambda>k. n + int k) [0..<length (file_add_calls w dir name ext outdir n)] \<and>
   (exist_file w (input_txt_file_path dir name) \<longrightarrow>
      files (fst (convert_txt_file_to_json os w dir name ext outdir n))
          (output_json_file_path outdir name ext) =
        Some (json_dump os
                (fold (\<lambda>(d, i) doc. add_data_to_json_file_data_dict d doc i)
                   (file_add_calls w dir name ext outdir n) []))) \<and>
   snd (for_input_file_name os dir ext outdir names w n) =
     n + int (length (loop_add_calls os dir ext outdir names w n)) \<and>
   map snd (batch_add_calls os w dir ext outdir names) =
     map int [0..<length (batch_add_calls os w dir ext outdir names)]"
proof -
  have "map snd (batch_add_calls os w dir ext outdir names) =
     map int [0..<length (batch_add_calls os w dir ext outdir names)]"
  proof (cases "input_file_names os w dir ext outdir names")
    case (Inl w')
    then show ?thesis by (simp add: batch_add_calls_def)
  next
    case (Inr p)
    obtain w2 ns where p: "p = (w2, ns)" by (cases p) auto
    show ?thesis
      using loop_add_calls_ids [of os dir ext outdir ns w2 0]
      by (simp add: batch_add_calls_def Inr p)
  qed
  with convert_counts_calls [of os w dir name ext outdir n]
    file_add_calls_ids [of w dir name ext outdir n]
    convert_writes_calls [of w dir name os ext outdir n]
    loop_counts_calls [of os dir ext outdir names w n]
  show ?thesis by blast
qed

theorem record_ids_count_from_zero_witness:
  "\<forall>os.
     map snd (batch_add_calls os
       \<lparr>files = [''in/a.txt'' \<mapsto>
                   map Line [''P'' @ [tab] @ ''a'' @ [newline], [newline],
                             ''P'' @ [tab] @ ''b'' @ [newline], [newline],
                             ''P'' @ [tab] @ ''c'' @ [newline], [newline]],
                 ''in/b.txt'' \<mapsto>
                   map Line [''P'' @ [tab] @ ''d'' @ [newline], [newline],
                             ''P'' @ [tab] @ ''e'' @ [newline], [newline]]],
        dirs = {''in'', ''out''}, stdout = []\<rparr>
       ''in'' ''.txt'' ''out'' [''a.txt'', ''b.txt'']) = [0, 1, 2, 3, 4] \<and>
     files (convert_txt_files_from_directory os
       \<lparr>files = [''in/a.txt'' \<mapsto>
                   map Line [''P'' @ [tab] @ ''a'' @ [newline], [newline],
                             ''P'' @ [tab] @ ''b'' @ [newline], [newline],
                             ''P'' @ [tab] @ ''c'' @ [newline], [newline]],
                 ''in/b.txt'' \<mapsto>
                   map Line [''P'' @ [tab] @ ''d'' @ [newline], [newline],
                             ''P'' @ [tab] @ ''e'' @ [newline], [newline]]],
        dirs = {''in'', ''out''}, stdout = []\<rparr>
       ''in'' ''.txt'' ''out'' [''a.txt'', ''b.txt'']) ''out/b.json'' =
     Some (json_dump os
       [(''d'', \<lparr>url = ''d'', id_num = 3, timestamp = [], phrases = [], links = []\<rparr>),
        (''e'', \<lparr>url = ''e'', id_num = 4, timestamp = [], phrases = [], links = []\<rparr>)])"
proof
  fix os
  let ?w = "\<lparr>files = [''in/a.txt'' \<mapsto>
                   map Line [''P'' @ [tab] @ ''a'' @ [newline], [newline],
                             ''P'' @ [tab] @ ''b'' @ [newline], [newline],
                             ''P'' @ [tab] @ ''c'' @ [newline], [newline]],
                 ''in/b.txt'' \<mapsto>
                   map Line [''P'' @ [tab] @ ''d'' @ [newline], [newline],
                             ''P'' @ [tab] @ ''e'' @ [newline], [newline]]],
        dirs = {''in'', ''out''}, stdout = []\<rparr>"
  have len: "length (batch_add_calls os ?w ''in'' ''.txt'' ''out'' [''a.txt'', ''b.txt'']) = 5"
    by (simp add: batch_add_calls_def input_file_names_def file_eval path_eval loop_eval
          line_eval)
  have five: "map int [0..<5] = [0, 1, 2, 3, 4]"
    by (simp add: upt_rec)
  have a: "map snd (batch_add_calls os ?w ''in'' ''.txt'' ''out'' [''a.txt'', ''b.txt'']) =
           [0, 1, 2, 3, 4]"
    using record_ids_count_from_zero [of os ?w "''in''" "''a.txt''" "''.txt''" "''out''" 0
            "[''a.txt'', ''b.txt'']"]
    by (simp only: len five)
  have b: "files (convert_txt_files_from_directory os ?w ''in'' ''.txt'' ''out''
                    [''a.txt'', ''b.txt'']) ''out/b.json'' =
     Some (json_dump os
       [(''d'', \<lparr>url = ''d'', id_num = 3, timestamp = [], phrases = [], links = []\<rparr>),
        (''e'', \<lparr>url = ''e'', id_num = 4, timestamp = [], phrases = [], links = []\<rparr>)])"
    by (simp add: convert_txt_files_from_directory_def input_file_names_def file_eval
          path_eval loop_eval line_eval)
  from a b show "map snd (batch_add_calls os ?w ''in'' ''.txt'' ''out'' [''a.txt'', ''b.txt'']) =
           [0, 1, 2, 3, 4] \<and>
     files (convert_txt_files_from_directory os ?w ''in'' ''.txt'' ''out''
                    [''a.txt'', ''b.txt'']) ''out/b.json'' =
     Some (json_dump os
       [(''d'', \<lparr>url = ''d'', id_num = 3, timestamp = [], phrases = [], links = []\<rparr>),
        (''e'', \<lparr>url = ''e'', id_num = 4, timestamp = [], phrases = [], links = []\<rparr>)])"
    by (rule conjI)
qed


end
